theory Spec2Isabelle
  imports Complex_Main "HOL-Library.Sublist"
begin

section \<open>Python strings\<close>

text \<open>
  A Python \<open>str\<close> is modelled as a \<^typ>\<open>string\<close>, one \<^typ>\<open>char\<close> for each code point
  (so the model covers text of code points below 256). The functions below are the
  methods of \<open>str\<close> that \<open>main.py\<close> calls.
\<close>

abbreviation NL :: char where
  "NL \<equiv> CHR 0x0A"

abbreviation HASH :: char where
  "HASH \<equiv> CHR ''#''"

text \<open>\<open>str.isspace\<close> on one character; it is also the class \<open>\s\<close> of \<open>re\<close> on a \<open>str\<close>
  pattern: tab, line feed, vertical tab, form feed, carriage return, the separators
  0x1C to 0x1F, space, next line (0x85) and no-break space (0xA0).\<close>

definition isspace :: "char \<Rightarrow> bool" where
  "isspace c = (c \<in> set [CHR 0x09, NL, CHR 0x0B, CHR 0x0C, CHR 0x0D,
                         CHR 0x1C, CHR 0x1D, CHR 0x1E, CHR 0x1F, CHR '' '',
                         CHR 0x85, CHR 0xA0])"

text \<open>\<open>s.startswith(p)\<close> and \<open>s.endswith(p)\<close>.\<close>

definition startswith :: "string \<Rightarrow> string \<Rightarrow> bool" where
  "startswith s p = (take (length p) s = p)"

definition endswith :: "string \<Rightarrow> string \<Rightarrow> bool" where
  "endswith s p = (length p \<le> length s \<and> drop (length s - length p) s = p)"

text \<open>\<open>s.strip(chars)\<close> removes the leading and the trailing characters that
  satisfy the predicate; \<open>s.strip()\<close> is the case of whitespace.\<close>

definition strip_chars :: "(char \<Rightarrow> bool) \<Rightarrow> string \<Rightarrow> string" where
  "strip_chars P s = rev (dropWhile P (rev (dropWhile P s)))"

definition strip :: "string \<Rightarrow> string" where
  "strip s = strip_chars isspace s"

text \<open>\<open>s.split(sep)\<close> for a separator of one character: every piece is kept, the empty
  ones too. The first argument is the piece being read.\<close>

fun split_on :: "char \<Rightarrow> string \<Rightarrow> string \<Rightarrow> string list" where
  "split_on sep cur [] = [cur]"
| "split_on sep cur (c # cs) =
     (if c = sep then cur # split_on sep [] cs else split_on sep (cur @ [c]) cs)"

definition split_char :: "char \<Rightarrow> string \<Rightarrow> string list" where
  "split_char sep s = split_on sep [] s"

text \<open>\<open>s.split()\<close>: the maximal runs of characters that are not whitespace.\<close>

fun split_ws :: "string \<Rightarrow> string \<Rightarrow> string list" where
  "split_ws cur [] = (if cur = [] then [] else [cur])"
| "split_ws cur (c # cs) =
     (if isspace c then (if cur = [] then split_ws [] cs else cur # split_ws [] cs)
      else split_ws (cur @ [c]) cs)"

definition str_split :: "string \<Rightarrow> string list" where
  "str_split s = split_ws [] s"

text \<open>\<open>sep.join(xs)\<close>.\<close>

fun join :: "string \<Rightarrow> string list \<Rightarrow> string" where
  "join sep [] = []"
| "join sep [x] = x"
| "join sep (x # y # ys) = x @ sep @ join sep (y # ys)"

section \<open>The pattern of the tag line\<close>

text \<open>
  Both \<open>extract_existing_tags\<close> and \<open>process_file\<close> use the pattern
  \<^verbatim>\<open>\nTags:\s*(.*?)$\<close> with \<open>re.MULTILINE\<close>. A match starts at the leftmost line feed that
  is followed by \<open>Tags:\<close>. There \<^verbatim>\<open>\s*\<close> is greedy and takes the whole run of whitespace,
  line feeds included; \<^verbatim>\<open>(.*?)\<close> is lazy and \<open>.\<close> matches no line feed, so group 1 grows one
  character at a time until \<open>$\<close> holds, which with \<open>re.MULTILINE\<close> is the end of the text or
  the position before a line feed. After the greedy run this always succeeds, so the
  matcher never gives whitespace back.
\<close>

definition marker :: string where
  "marker = NL # ''Tags:''"

text \<open>The leftmost occurrence of the marker: the text before it and the text after it.\<close>

fun search_marker :: "string \<Rightarrow> (string \<times> string) option" where
  "search_marker [] = None"
| "search_marker (c # cs) =
     (if startswith (c # cs) marker then Some ([], drop (length marker) (c # cs))
      else map_option (\<lambda>(pre, post). (c # pre, post)) (search_marker cs))"

text \<open>The match object of \<open>re.search\<close>: the text before the match, the matched text
  (group 0), group 1, and the text after the match.\<close>

record re_match =
  before :: string
  group0 :: string
  group1 :: string
  after :: string

definition re_search :: "string \<Rightarrow> re_match option" where
  "re_search content =
     (case search_marker content of
        None \<Rightarrow> None
      | Some (pre, post) \<Rightarrow>
          let ws = takeWhile isspace post;
              rest = dropWhile isspace post;
              g = takeWhile (\<lambda>c. c \<noteq> NL) rest
          in Some \<lparr>before = pre, group0 = marker @ ws @ g, group1 = g,
                   after = dropWhile (\<lambda>c. c \<noteq> NL) rest\<rparr>)"

section \<open>extract\_existing\_tags\<close>

text \<open>
  \<^verbatim>\<open>match = re.search(r'\nTags:\s*(.*?)$', content, re.MULTILINE)\<close>
  \<^verbatim>\<open>if match: return [tag.strip() for tag in match.group(1).split('#') if tag.strip()]\<close>
  \<^verbatim>\<open>return []\<close>
\<close>

definition extract_existing_tags :: "string \<Rightarrow> string list" where
  "extract_existing_tags content =
     (case re_search content of
        Some m \<Rightarrow> map strip (filter (\<lambda>tag. strip tag \<noteq> []) (split_char HASH (group1 m)))
      | None \<Rightarrow> [])"

section \<open>Errors, the environment and the state\<close>

text \<open>The exceptions that can leave a function of \<open>main.py\<close>. None of them is caught
  there, except \<open>JSONDecodeError\<close> and \<open>KeyError\<close> in \<open>get_suggested_tags_ollama\<close>.\<close>

datatype py_error =
    OSError | UnicodeDecodeError | ConnectionError | JSONDecodeError | KeyError
  | TypeError | ReError | ZeroDivisionError

text \<open>What \<open>requests.post\<close> and the decoding of the response give. \<open>Raises\<close>: the call
  itself raises. Otherwise a response with its status code; its body either fails to
  decode (\<open>json.loads\<close>, \<open>response.json()\<close> or a subscript raises the given error) or
  carries the generated text and the token count that it reports (0 when it reports
  none).\<close>

datatype body = Undecodable py_error | Decoded string int

datatype reply = Raises py_error | Response nat body

text \<open>A directory as \<open>os.walk\<close> lists it: its subdirectories with their names, and the
  names of its files.\<close>

datatype dir_tree = Dir "(string \<times> dir_tree) list" "string list"

text \<open>
  The environment holds what the script reads from outside and never changes:
  \<^item> \<open>use_ollama\<close>: the global of that name;
  \<^item> \<open>http_post n content\<close>: the reply to the request with number \<open>n\<close> (counted from 0 by
    \<open>api_queries\<close>) for a note of that content;
  \<^item> \<open>open_w path\<close>: the error that \<open>open(path, 'w')\<close> raises, if any; the file is then
    as it was;
  \<^item> \<open>file_write path content\<close>: the error that \<open>file.write(content)\<close> or the closing of
    the file raises, if any, with the number of characters that reached the file before
    it. By then \<open>open\<close> has emptied the file, so the file holds that many characters of
    the new content and nothing of the old one;
  \<^item> \<open>parse_template repl\<close>: how \<open>re.sub\<close> reads a replacement that contains a backslash:
    an error, or the text that replaces a match. It is a library function outside
    \<open>main.py\<close> and is asked only for such replacements;
  \<^item> \<open>os_walk top\<close>: the directory tree under \<open>top\<close>, \<open>None\<close> when \<open>top\<close> cannot be listed
    (it does not exist or is no directory): \<open>os.walk\<close> ignores that error and yields
    nothing;
  \<^item> \<open>run_time\<close>: \<open>time.time() - start_time\<close> at the end of the run, a float read as a real.
\<close>

record env =
  use_ollama :: bool
  http_post :: "nat \<Rightarrow> string \<Rightarrow> reply"
  open_w :: "string \<Rightarrow> py_error option"
  file_write :: "string \<Rightarrow> string \<Rightarrow> (py_error \<times> nat) option"
  parse_template :: "string \<Rightarrow> py_error + (re_match \<Rightarrow> string)"
  os_walk :: "string \<Rightarrow> dir_tree option"
  run_time :: real

text \<open>The state: what \<open>open(path, 'r').read()\<close> gives for each path (the text, or the
  error raised), and the two global counters.\<close>

record state =
  disk :: "string \<Rightarrow> py_error + string"
  api_queries :: nat
  total_tokens :: int

datatype status = Tags_Updated | Existing_Tags | Failed

record outcome =
  file_name :: string
  status :: status
  tags :: "string list"

section \<open>The backends\<close>

text \<open>
  \<open>get_suggested_tags_ollama\<close>: count the query, post; on status 200 decode, split the
  text at whitespace, strip \<open>#\<close> and space from both ends of every token and prefix it with
  \<open>#\<close>, add the tokens reported; a \<open>JSONDecodeError\<close> or \<open>KeyError\<close> is caught and gives
  \<open>None\<close>, as any other status does.
\<close>

definition ollama_tag :: "string \<Rightarrow> string" where
  "ollama_tag tag0 =
     (let tag = strip_chars (\<lambda>c. c = HASH \<or> c = CHR '' '') tag0
      in if \<not> startswith tag ''#'' then HASH # tag else tag)"

definition get_suggested_tags_ollama ::
  "env \<Rightarrow> string \<Rightarrow> state \<Rightarrow> (py_error + string list option) \<times> state" where
  "get_suggested_tags_ollama e content s =
     (let s1 = s\<lparr>api_queries := api_queries s + 1\<rparr>
      in case http_post e (api_queries s) content of
           Raises err \<Rightarrow> (Inl err, s1)
         | Response code b \<Rightarrow>
             if code = 200 then
               (case b of
                  Undecodable err \<Rightarrow>
                    if err = JSONDecodeError \<or> err = KeyError then (Inr None, s1)
                    else (Inl err, s1)
                | Decoded text n \<Rightarrow>
                    (Inr (Some (map ollama_tag (str_split (strip text)))),
                     s1\<lparr>total_tokens := total_tokens s1 + n\<rparr>))
             else (Inr None, s1))"

text \<open>
  \<open>get_suggested_tags_claude\<close>: count the query, post; on status 200 decode (nothing is
  caught here), split the stripped text at whitespace and add the tokens reported; any
  other status gives \<open>None\<close>.
\<close>

definition get_suggested_tags_claude ::
  "env \<Rightarrow> string \<Rightarrow> state \<Rightarrow> (py_error + string list option) \<times> state" where
  "get_suggested_tags_claude e content s =
     (let s1 = s\<lparr>api_queries := api_queries s + 1\<rparr>
      in case http_post e (api_queries s) content of
           Raises err \<Rightarrow> (Inl err, s1)
         | Response code b \<Rightarrow>
             if code = 200 then
               (case b of
                  Undecodable err \<Rightarrow> (Inl err, s1)
                | Decoded text n \<Rightarrow>
                    (Inr (Some (str_split (strip text))),
                     s1\<lparr>total_tokens := total_tokens s1 + n\<rparr>))
             else (Inr None, s1))"

definition get_suggested_tags ::
  "env \<Rightarrow> string \<Rightarrow> state \<Rightarrow> (py_error + string list option) \<times> state" where
  "get_suggested_tags e content s =
     (if use_ollama e then get_suggested_tags_ollama e content s
      else get_suggested_tags_claude e content s)"

section \<open>process\_file\<close>

text \<open>\<open>re.sub\<close> with the pattern of the tag line: every match, from left to right, is
  replaced; the search goes on after the end of the match.\<close>

lemma search_marker_shorter:
  "search_marker content = Some (pre, post) \<Longrightarrow> length post < length content"
  by (induction content arbitrary: pre) (auto split: if_splits simp: marker_def)

lemma re_search_shorter:
  "re_search content = Some m \<Longrightarrow> length (after m) < length content"
proof -
  assume a: "re_search content = Some m"
  then obtain pre post where sm: "search_marker content = Some (pre, post)"
    by (auto simp: re_search_def split: option.splits)
  with a have "after m = dropWhile (\<lambda>c. c \<noteq> NL) (dropWhile isspace post)"
    by (auto simp: re_search_def Let_def)
  moreover have "length (dropWhile (\<lambda>c. c \<noteq> NL) (dropWhile isspace post)) \<le> length post"
    by (meson length_dropWhile_le order_trans)
  ultimately show ?thesis
    using search_marker_shorter [OF sm] by simp
qed

function sub_all :: "(re_match \<Rightarrow> string) \<Rightarrow> string \<Rightarrow> string" where
  "sub_all f content =
     (case re_search content of
        None \<Rightarrow> content
      | Some m \<Rightarrow> before m @ f m @ sub_all f (after m))"
  by pat_completeness auto
termination
  by (relation "measure (\<lambda>(f, content). length content)") (auto simp: re_search_shorter)

text \<open>A replacement without a backslash is taken as it is; one with a backslash is a
  template, parsed before any match is replaced.\<close>

definition re_sub :: "env \<Rightarrow> string \<Rightarrow> string \<Rightarrow> py_error + string" where
  "re_sub e repl content =
     (if CHR 0x5C \<in> set repl then
        (case parse_template e repl of
           Inl err \<Rightarrow> Inl err
         | Inr f \<Rightarrow> Inr (sub_all f content))
      else Inr (sub_all (\<lambda>m. repl) content))"

text \<open>Lines 62 to 71: the suggested tags that are not among the existing ones are
  appended, a tag that does not start with \<open>#\<close> is stripped and prefixed with \<open>#\<close>, and the
  first ten are kept.\<close>

definition correct_tag :: "string \<Rightarrow> string" where
  "correct_tag tag = (if \<not> startswith tag ''#'' then HASH # strip tag else tag)"

definition merge_tags :: "string list \<Rightarrow> string list \<Rightarrow> string list" where
  "merge_tags existing_tags suggested_tags =
     take 10 (map correct_tag
       (existing_tags @ filter (\<lambda>tag. tag \<notin> set existing_tags) suggested_tags))"

text \<open>Lines 73 to 76: the new content.\<close>

definition rewrite_content :: "env \<Rightarrow> string \<Rightarrow> string \<Rightarrow> py_error + string" where
  "rewrite_content e content tag_string =
     (if re_search content \<noteq> None then re_sub e (NL # ''Tags: '' @ tag_string) content
      else Inr (content @ NL # ''Tags: '' @ tag_string))"

text \<open>Lines 62 to 80: merge, rewrite, write the file, return the outcome. In lines 77
  and 78 \<open>open(file_path, 'w')\<close> either raises and leaves the file as it was, or empties
  it; then the write either raises and leaves a part of the new content in the file, or
  puts the whole new content there.\<close>

definition write_tags ::
  "env \<Rightarrow> string \<Rightarrow> string \<Rightarrow> string list \<Rightarrow> string list \<Rightarrow> state
     \<Rightarrow> (py_error + outcome) \<times> state" where
  "write_tags e file_path content existing_tags suggested_tags s =
     (let corrected_tags = merge_tags existing_tags suggested_tags;
          tag_string = join '' '' corrected_tags
      in case rewrite_content e content tag_string of
           Inl err \<Rightarrow> (Inl err, s)
         | Inr content' \<Rightarrow>
             (case open_w e file_path of
                Some err \<Rightarrow> (Inl err, s)
              | None \<Rightarrow>
                  (case file_write e file_path content' of
                     Some (err, n) \<Rightarrow>
                       (Inl err, s\<lparr>disk := (disk s)(file_path := Inr (take n content'))\<rparr>)
                   | None \<Rightarrow>
                       (Inr \<lparr>file_name = file_path, status = Tags_Updated,
                              tags = corrected_tags\<rparr>,
                        s\<lparr>disk := (disk s)(file_path := Inr content')\<rparr>))))"

text \<open>The loop of lines 55 to 85. \<open>if suggested_tags:\<close> is false for \<open>None\<close> and for the
  empty list.\<close>

function retry_loop ::
  "env \<Rightarrow> string \<Rightarrow> string \<Rightarrow> string list \<Rightarrow> nat \<Rightarrow> nat \<Rightarrow> state
     \<Rightarrow> (py_error + outcome) \<times> state" where
  "retry_loop e file_path content existing_tags retry_limit retry_count s =
     (if retry_count < retry_limit then
        (case get_suggested_tags e content s of
           (Inl err, s') \<Rightarrow> (Inl err, s')
         | (Inr suggested, s') \<Rightarrow>
             (case suggested of
                None \<Rightarrow> (Inr \<lparr>file_name = file_path, status = Failed, tags = []\<rparr>, s')
              | Some suggested_tags \<Rightarrow>
                  if suggested_tags \<noteq> [] then
                    (if length suggested_tags > 10 then
                       retry_loop e file_path content existing_tags retry_limit
                         (retry_count + 1) s'
                     else write_tags e file_path content existing_tags suggested_tags s')
                  else (Inr \<lparr>file_name = file_path, status = Failed, tags = []\<rparr>, s')))
      else (Inr \<lparr>file_name = file_path, status = Failed, tags = []\<rparr>, s))"
  by pat_completeness auto
termination
  by (relation "measure (\<lambda>(e, p, c, ex, retry_limit, retry_count, s). retry_limit - retry_count)")
    auto

declare retry_loop.simps [simp del]

definition process_file ::
  "env \<Rightarrow> string \<Rightarrow> nat \<Rightarrow> state \<Rightarrow> (py_error + outcome) \<times> state" where
  "process_file e file_path retry_limit s =
     (case disk s file_path of
        Inl err \<Rightarrow> (Inl err, s)
      | Inr content \<Rightarrow>
          (let existing_tags = extract_existing_tags content
           in if length existing_tags < 9 then
                retry_loop e file_path content existing_tags retry_limit 0 s
              else (Inr \<lparr>file_name = file_path, status = Existing_Tags, tags = existing_tags\<rparr>, s)))"

section \<open>print\_statistics\<close>

text \<open>The values that \<open>print_statistics\<close> prints, in the order of its \<open>print\<close> calls (the
  headings, the colours and the rounding to two decimals are left out).\<close>

datatype stat_line =
    Total_Files nat | Files_Updated nat | Files_Existing nat | Files_Failed nat
  | Total_Run_Time real | Average_Time real | Total_Queries nat | Total_Tokens int
  | Estimated_Cost real | No_Api_Costs

text \<open>\<open>x / y\<close> on numbers raises \<open>ZeroDivisionError\<close> when \<open>y\<close> is zero.\<close>

definition truediv :: "real \<Rightarrow> real \<Rightarrow> py_error + real" where
  "truediv x y = (if y = 0 then Inl ZeroDivisionError else Inr (x / y))"

text \<open>The result is what was printed and the exception raised, if any: the lines up to
  the total run time are printed before the average is computed.\<close>

definition print_statistics ::
  "env \<Rightarrow> state \<Rightarrow> outcome list \<Rightarrow> stat_line list \<times> py_error option" where
  "print_statistics e s processed_files =
     (let total_files = length processed_files;
          tags_updated = length (filter (\<lambda>f. status f = Tags_Updated) processed_files);
          existing_tags = length (filter (\<lambda>f. status f = Existing_Tags) processed_files);
          failed = length (filter (\<lambda>f. status f = Failed) processed_files);
          printed_first = [Total_Files total_files, Files_Updated tags_updated,
                     Files_Existing existing_tags, Files_Failed failed,
                     Total_Run_Time (run_time e)]
      in case truediv (run_time e) (real total_files) of
           Inl err \<Rightarrow> (printed_first, Some err)
         | Inr average \<Rightarrow>
             (printed_first @
              [Average_Time average, Total_Queries (api_queries s),
               Total_Tokens (total_tokens s),
               if \<not> use_ollama e
               then Estimated_Cost (real_of_int (total_tokens s) / 1000 * (8 / 100))
               else No_Api_Costs],
              None))"

section \<open>scan\_directory\<close>

text \<open>\<open>os.path.join\<close> of two components on POSIX.\<close>

definition os_path_join :: "string \<Rightarrow> string \<Rightarrow> string" where
  "os_path_join a b =
     (if startswith b ''/'' then b
      else if a = [] \<or> endswith a ''/'' then a @ b
      else a @ ''/'' @ b)"

text \<open>Line 33: the directories that the walk descends into.\<close>

definition keep_dir :: "string \<Rightarrow> bool" where
  "keep_dir d =
     (\<not> startswith d ''.'' \<and>
      d \<notin> set [''zTemplates'', ''cheat-sheets-main'', ''zz_Attachments'',
                 ''00 Monthly Tasks'', ''BMO'', ''zz_Archive''])"

text \<open>\<open>os.walk\<close> from the top down, with \<open>dirs\<close> pruned in place by the loop body before
  the walk descends: the pairs \<open>(root, files)\<close> in the order they are yielded (\<open>root\<close> is written
  \<open>dirpath\<close>).\<close>

fun walk :: "string \<Rightarrow> dir_tree \<Rightarrow> (string \<times> string list) list" where
  "walk dirpath (Dir dirs files) =
     (dirpath, files) #
     concat (map (\<lambda>(d, t). walk (os_path_join dirpath d) t)
                 (filter (\<lambda>(d, t). keep_dir d) dirs))"

text \<open>Lines 34 to 36: the paths handed to \<open>process_file\<close>, in order.\<close>

definition md_paths :: "env \<Rightarrow> string \<Rightarrow> string list" where
  "md_paths e directory =
     (case os_walk e directory of
        None \<Rightarrow> []
      | Some t \<Rightarrow>
          concat (map (\<lambda>(dirpath, files).
                    map (os_path_join dirpath) (filter (\<lambda>f. endswith f ''.md'') files))
                  (walk directory t)))"

text \<open>Lines 37 and 38, for each path: an exception of \<open>process_file\<close> ends the loop.\<close>

fun process_files ::
  "env \<Rightarrow> string list \<Rightarrow> outcome list \<Rightarrow> state
     \<Rightarrow> (py_error option \<times> outcome list) \<times> state" where
  "process_files e [] processed_files s = ((None, processed_files), s)"
| "process_files e (file_path # paths) processed_files s =
     (case process_file e file_path 3 s of
        (Inl err, s') \<Rightarrow> ((Some err, processed_files), s')
      | (Inr result, s') \<Rightarrow> process_files e paths (processed_files @ [result]) s')"

record scan_result =
  processed :: "outcome list"
  printed :: "stat_line list"
  raised :: "py_error option"

definition scan_directory :: "env \<Rightarrow> string \<Rightarrow> state \<Rightarrow> scan_result \<times> state" where
  "scan_directory e directory s =
     (case process_files e (md_paths e directory) [] s of
        ((Some err, processed_files), s') \<Rightarrow>
          (\<lparr>processed = processed_files, printed = [], raised = Some err\<rparr>, s')
      | ((None, processed_files), s') \<Rightarrow>
          (let (out, err) = print_statistics e s' processed_files
           in (\<lparr>processed = processed_files, printed = out, raised = err\<rparr>, s')))"

section \<open>The persisted tag line\<close>

text \<open>The format of the tag line in a note: the tokens, each prefixed with \<open>#\<close>, separated
  by one space. A plain token is not empty and holds neither \<open>#\<close> nor whitespace.\<close>

definition tag_line :: "string list \<Rightarrow> string" where
  "tag_line ts = join '' '' (map ((#) HASH) ts)"

definition plain_token :: "string \<Rightarrow> bool" where
  "plain_token t = (t \<noteq> [] \<and> (\<forall>c \<in> set t. c \<noteq> HASH \<and> \<not> isspace c))"

section \<open>Kinds of replies\<close>

text \<open>A reply is oversized when it has status 200 and its text splits into more than ten
  tags. A reply is a reported failure when \<open>get_suggested_tags\<close> turns it into \<open>None\<close>: a
  status other than 200, or, for the local backend only, a body whose decoding raises
  \<open>JSONDecodeError\<close> or \<open>KeyError\<close>.\<close>

definition oversized :: "reply \<Rightarrow> bool" where
  "oversized r =
     (case r of
        Response code (Decoded text n) \<Rightarrow> code = 200 \<and> 10 < length (str_split (strip text))
      | _ \<Rightarrow> False)"

definition reported_failure :: "bool \<Rightarrow> reply \<Rightarrow> bool" where
  "reported_failure ollama r =
     (case r of
        Response code b \<Rightarrow>
          code \<noteq> 200 \<or> (ollama \<and> (b = Undecodable JSONDecodeError \<or> b = Undecodable KeyError))
      | Raises err \<Rightarrow> False)"

section \<open>Sample inputs\<close>

text \<open>A vault with a hidden directory, one subdirectory and three files at the top; the
  file \<open>locked.md\<close> cannot be read.\<close>

definition sample_tree :: dir_tree where
  "sample_tree =
     Dir [(''.git'', Dir [] [''x.md'']), (''sub'', Dir [] [''two.md''])]
         [''locked.md'', ''nine.md'', ''readme.txt'']"

definition note_nine :: string where
  "note_nine = ''Title\<newline>Tags: #t1 #t2 #t3 #t4 #t5 #t6 #t7 #t8 #t9\<newline>Body''"

definition note_two :: string where
  "note_two = ''note\<newline>Tags: #a #b''"

definition note_first_line :: string where
  "note_first_line = ''Tags: #a #b\<newline>Body''"

definition note_nine_first :: string where
  "note_nine_first = ''Tags: #t1 #t2 #t3 #t4 #t5 #t6 #t7 #t8 #t9\<newline>Body''"

definition sample_disk :: "string \<Rightarrow> py_error + string" where
  "sample_disk path =
     (if path = ''/vault/nine.md'' then Inr note_nine
      else if path = ''/vault/nine_first.md'' then Inr note_nine_first
      else if path = ''/vault/sub/two.md'' then Inr note_two
      else if path = ''/vault/first.md'' then Inr note_first_line
      else Inl OSError)"

definition sample_state :: state where
  "sample_state = \<lparr>disk = sample_disk, api_queries = 0, total_tokens = 0\<rparr>"

text \<open>An environment with the given backend and the given replies, where every file can
  be written.\<close>

definition sample_env :: "bool \<Rightarrow> (nat \<Rightarrow> reply) \<Rightarrow> env" where
  "sample_env ollama replies =
     \<lparr>use_ollama = ollama, http_post = (\<lambda>n content. replies n), open_w = (\<lambda>path. None),
      file_write = (\<lambda>path content. None),
      parse_template = (\<lambda>repl. Inl ReError),
      os_walk = (\<lambda>top. if top = ''/vault'' then Some sample_tree else None),
      run_time = 2\<rparr>"

definition nine_existing :: "string list" where
  "nine_existing = [''t1'', ''t2'', ''t3'', ''t4'', ''t5'', ''t6'', ''t7'', ''t8'', ''t9'']"

definition nine_suggested :: "string list" where
  "nine_suggested = [''#s1'', ''#s2'', ''#s3'', ''#s4'', ''#s5'', ''#s6'', ''#s7'', ''#s8'', ''#s9'']"

definition eleven_tags :: string where
  "eleven_tags = ''#t1 #t2 #t3 #t4 #t5 #t6 #t7 #t8 #t9 #t10 #t11''"

section \<open>Facts about the search and the string functions\<close>

text \<open>\<open>search_marker\<close> finds the leftmost occurrence of the marker, and finds none exactly
  when the marker is no sublist of the text.\<close>

lemma startswith_prefix: "startswith s p \<longleftrightarrow> prefix p s"
  by (metis startswith_def prefix_def append_eq_conv_conj take_is_prefix)

lemma search_marker_None_iff: "search_marker s = None \<longleftrightarrow> \<not> sublist marker s"
  by (induction s) (auto simp: sublist_Cons_right startswith_prefix marker_def)

lemma short_list_cases:
  assumes "length cs < 5"
  obtains "cs = []" | a where "cs = [a]" | a b where "cs = [a, b]"
    | a b c where "cs = [a, b, c]" | a b c d where "cs = [a, b, c, d]"
proof (cases cs)
  case Nil then show ?thesis using that by simp
next
  case c1: (Cons a l1)
  show ?thesis
  proof (cases l1)
    case Nil then show ?thesis using that c1 by simp
  next
    case c2: (Cons b l2)
    show ?thesis
    proof (cases l2)
      case Nil then show ?thesis using that c1 c2 by simp
    next
      case c3: (Cons c l3)
      show ?thesis
      proof (cases l3)
        case Nil then show ?thesis using that c1 c2 c3 by simp
      next
        case c4: (Cons d l4)
        with assms c1 c2 c3 have "l4 = []" by simp
        then show ?thesis using that c1 c2 c3 c4 by simp
      qed
    qed
  qed
qed

lemma marker_no_overlap:
  assumes "startswith (c # cs @ marker @ post) marker"
  shows "startswith (c # cs) marker"
proof -
  from assms have c: "c = NL" and t: "take 5 (cs @ marker @ post) = ''Tags:''"
    by (auto simp: marker_def startswith_def eval_nat_numeral)
  show ?thesis
  proof (cases "length cs < 5")
    case False
    with t have "take 5 cs = ''Tags:''" by simp
    with c show ?thesis by (simp add: marker_def startswith_def eval_nat_numeral)
  next
    case True
    then show ?thesis using t
      by (cases cs rule: short_list_cases) (auto simp: marker_def)
  qed
qed

lemma search_marker_first:
  "\<not> sublist marker pre \<Longrightarrow> search_marker (pre @ marker @ post) = Some (pre, post)"
proof (induction pre)
  case Nil
  then show ?case by (simp add: marker_def startswith_def)
next
  case (Cons c cs)
  from Cons.prems have np: "\<not> startswith (c # cs) marker" and ns: "\<not> sublist marker cs"
    by (auto simp: sublist_Cons_right startswith_prefix)
  from np marker_no_overlap have "\<not> startswith (c # cs @ marker @ post) marker" by blast
  with Cons.IH [OF ns] show ?case by simp
qed


lemma split_on_no_sep:
  "sep \<notin> set t \<Longrightarrow> split_on sep cur (t @ s) = split_on sep (cur @ t) s"
  by (induction t arbitrary: cur) auto

lemma split_on_tag_line:
  "ts \<noteq> [] \<Longrightarrow> \<forall>t \<in> set ts. HASH \<notin> set t \<Longrightarrow>
   split_on HASH cur (tag_line ts) = cur # map (\<lambda>t. t @ '' '') (butlast ts) @ [last ts]"
proof (induction ts arbitrary: cur)
  case Nil
  then show ?case by simp
next
  case (Cons x xs)
  show ?case
  proof (cases xs)
    case Nil
    with Cons.prems show ?thesis
      using split_on_no_sep [of HASH x "[]" "[]"] by (simp add: tag_line_def)
  next
    case (Cons y ys)
    have "tag_line (x # xs) = HASH # (x @ '' '') @ tag_line xs"
      by (simp add: tag_line_def Cons)
    moreover have "HASH \<notin> set (x @ '' '')" using Cons.prems by simp
    ultimately have "split_on HASH cur (tag_line (x # xs)) = cur # split_on HASH (x @ '' '') (tag_line xs)"
      using split_on_no_sep [of HASH "x @ '' ''" "[]" "tag_line xs"] by simp
    also have "split_on HASH (x @ '' '') (tag_line xs) = (x @ '' '') # map (\<lambda>t. t @ '' '') (butlast xs) @ [last xs]"
      using Cons.IH [of "x @ '' ''"] Cons.prems Cons by simp
    finally show ?thesis using Cons by simp
  qed
qed

lemma dropWhile_hd: "t \<noteq> [] \<Longrightarrow> \<not> P (hd t) \<Longrightarrow> dropWhile P t = t"
  by (cases t) simp_all

lemma plain_token_ends:
  assumes "plain_token t"
  shows "t \<noteq> []" and "\<not> isspace (hd t)" and "\<not> isspace (last t)"
  using assms unfolding plain_token_def by (simp_all add: hd_in_set last_in_set)

lemma strip_plain: "plain_token t \<Longrightarrow> strip t = t"
proof -
  assume p: "plain_token t"
  note e = plain_token_ends [OF p]
  have a: "dropWhile isspace t = t" using e by (simp add: dropWhile_hd)
  have b: "dropWhile isspace (rev t) = rev t" using e by (simp add: dropWhile_hd hd_rev)
  show ?thesis unfolding strip_def strip_chars_def by (simp only: a b rev_rev_ident)
qed

lemma strip_plain_space: "plain_token t \<Longrightarrow> strip (t @ '' '') = t"
proof -
  assume p: "plain_token t"
  note e = plain_token_ends [OF p]
  have a: "dropWhile isspace (t @ '' '') = t @ '' ''" using e by (simp add: dropWhile_hd)
  have sp: "isspace (CHR '' '')" by (simp add: isspace_def)
  have b: "dropWhile isspace (rev t) = rev t" using e by (simp add: dropWhile_hd hd_rev)
  have c: "dropWhile isspace (rev (t @ '' '')) = rev t" using sp b by simp
  show ?thesis unfolding strip_def strip_chars_def by (simp only: a c rev_rev_ident)
qed

lemma pieces_tag_line:
  assumes "ts \<noteq> []" and "\<forall>t \<in> set ts. plain_token t"
  shows "map strip (filter (\<lambda>tag. strip tag \<noteq> []) (split_char HASH (tag_line ts))) = ts"
proof -
  let ?sp = "map (\<lambda>t. t @ '' '') (butlast ts)"
  have nh: "\<forall>t \<in> set ts. HASH \<notin> set t" using assms(2) by (auto simp: plain_token_def)
  have bl: "\<And>t. t \<in> set (butlast ts) \<Longrightarrow> plain_token t"
    using assms(2) by (auto dest: in_set_butlastD)
  have l: "plain_token (last ts)" using assms by simp
  have "\<forall>p \<in> set ?sp. strip p \<noteq> []"
    using bl by (auto simp: strip_plain_space plain_token_def)
  then have f: "filter (\<lambda>tag. strip tag \<noteq> []) ?sp = ?sp"
    by (rule filter_True)
  have m: "map strip ?sp = butlast ts"
    using bl by (simp add: strip_plain_space map_idI)
  have s0: "strip [] = []" by (simp add: strip_def strip_chars_def)
  have l1: "strip (last ts) = last ts" "last ts \<noteq> []"
    using l by (auto simp: strip_plain plain_token_def)
  have "split_char HASH (tag_line ts) = [] # ?sp @ [last ts]"
    using split_on_tag_line [OF assms(1) nh, of "[]"] by (simp add: split_char_def)
  then have "map strip (filter (\<lambda>tag. strip tag \<noteq> []) (split_char HASH (tag_line ts)))
      = map strip ?sp @ [last ts]"
    using f s0 l1 by simp
  also have "\<dots> = butlast ts @ [last ts]" using m by simp
  finally show ?thesis using assms(1) by simp
qed

lemma tag_line_chars:
  assumes "\<forall>t \<in> set ts. plain_token t"
  shows "NL \<notin> set (tag_line ts)"
  using assms
proof (induction ts rule: induct_list012)
  case 1 then show ?case by (simp add: tag_line_def)
next
  case (2 x) then show ?case by (auto simp: tag_line_def plain_token_def isspace_def)
next
  case (3 x y zs)
  then show ?case by (auto simp: tag_line_def plain_token_def isspace_def)
qed

lemma tag_line_hd: "ts \<noteq> [] \<Longrightarrow> \<exists>r. tag_line ts = HASH # r"
proof (cases ts)
  case Nil then show "ts \<noteq> [] \<Longrightarrow> ?thesis" by simp
next
  case (Cons x xs)
  then show ?thesis by (cases xs) (simp_all add: tag_line_def)
qed

lemma takeWhile_line:
  assumes "NL \<notin> set l" and "rest = [] \<or> hd rest = NL"
  shows "takeWhile (\<lambda>c. c \<noteq> NL) (l @ rest) = l"
proof -
  have "takeWhile (\<lambda>c. c \<noteq> NL) rest = []" using assms(2) by (cases rest) auto
  moreover have "\<forall>c \<in> set l. c \<noteq> NL" using assms(1) by auto
  ultimately show ?thesis by (simp add: takeWhile_append2)
qed

lemma re_search_tag_line:
  assumes "\<not> sublist marker pre" and "\<forall>c \<in> set ws. isspace c"
    and "ts \<noteq> []" and "\<forall>t \<in> set ts. plain_token t"
    and "rest = [] \<or> hd rest = NL"
  shows "\<exists>m. re_search (pre @ marker @ ws @ tag_line ts @ rest) = Some m \<and> group1 m = tag_line ts"
proof -
  obtain r where r: "tag_line ts = HASH # r" using tag_line_hd [OF assms(3)] by blast
  have nsp: "\<not> isspace HASH" by (simp add: isspace_def)
  have d: "dropWhile isspace (ws @ tag_line ts @ rest) = tag_line ts @ rest"
    using assms(2) nsp r by (simp add: dropWhile_append2)
  have t: "takeWhile (\<lambda>c. c \<noteq> NL) (tag_line ts @ rest) = tag_line ts"
    using takeWhile_line [OF tag_line_chars [OF assms(4)] assms(5)] .
  show ?thesis
    using search_marker_first [OF assms(1), of "ws @ tag_line ts @ rest"] d t
    by (simp add: re_search_def Let_def)
qed


lemma extract_existing_tags_on_tag_line:
  assumes "\<not> sublist marker pre" and "\<forall>c \<in> set ws. isspace c"
    and "ts \<noteq> []" and "\<forall>t \<in> set ts. plain_token t"
    and "rest = [] \<or> hd rest = NL"
  shows "extract_existing_tags (pre @ marker @ ws @ tag_line ts @ rest) = ts"
proof -
  obtain m where m: "re_search (pre @ marker @ ws @ tag_line ts @ rest) = Some m"
      "group1 m = tag_line ts"
    using re_search_tag_line [OF assms] by blast
  then show ?thesis
    using pieces_tag_line [OF assms(3) assms(4)]
    by (simp add: extract_existing_tags_def)
qed

lemma marker_append: "pre @ NL # ''Tags:'' @ post = pre @ marker @ post"
  by (simp add: marker_def)

section \<open>Facts about the merge and the retry loop\<close>

lemma startswith_correct_tag: "startswith (correct_tag t) ''#''"
  by (simp add: correct_tag_def startswith_def)

lemma merge_tags_image:
  "set (merge_tags existing_tags suggested_tags) \<subseteq> correct_tag ` set (existing_tags @ suggested_tags)"
proof
  fix t assume "t \<in> set (merge_tags existing_tags suggested_tags)"
  then have "t \<in> set (map correct_tag
       (existing_tags @ filter (\<lambda>tag. tag \<notin> set existing_tags) suggested_tags))"
    unfolding merge_tags_def by (rule in_set_takeD)
  then show "t \<in> correct_tag ` set (existing_tags @ suggested_tags)" by auto
qed

lemma merge_tags_nine_nine:
  assumes "length existing_tags = 9" and "suggested_tags \<noteq> []"
    and "set existing_tags \<inter> set suggested_tags = {}"
  shows "merge_tags existing_tags suggested_tags =
           map correct_tag existing_tags @ [correct_tag (hd suggested_tags)]"
proof -
  have f: "filter (\<lambda>tag. tag \<notin> set existing_tags) suggested_tags = suggested_tags"
    using assms(3) by (auto intro: filter_True)
  obtain x xs where s: "suggested_tags = x # xs" using assms(2) by (cases suggested_tags) auto
  have "merge_tags existing_tags suggested_tags =
      take 10 (map correct_tag existing_tags @ map correct_tag suggested_tags)"
    by (simp add: merge_tags_def f)
  then show ?thesis using assms(1) by (simp add: s)
qed

lemma get_suggested_tags_oversized:
  assumes "oversized (http_post e (api_queries s) content)"
  shows "\<exists>suggested s'. get_suggested_tags e content s = (Inr (Some suggested), s') \<and>
           10 < length suggested \<and> disk s' = disk s \<and> api_queries s' = api_queries s + 1"
proof -
  from assms obtain reply_text n where
    r: "http_post e (api_queries s) content = Response 200 (Decoded reply_text n)"
    and l: "10 < length (str_split (strip reply_text))"
    by (auto simp: oversized_def split: reply.splits body.splits)
  show ?thesis
    using r l
    by (simp add: get_suggested_tags_def get_suggested_tags_ollama_def
        get_suggested_tags_claude_def Let_def)
qed

lemma get_suggested_tags_reported_failure:
  assumes "reported_failure (use_ollama e) (http_post e (api_queries s) content)"
  shows "get_suggested_tags e content s = (Inr None, s\<lparr>api_queries := api_queries s + 1\<rparr>)"
  using assms
  by (auto simp: reported_failure_def get_suggested_tags_def get_suggested_tags_ollama_def
      get_suggested_tags_claude_def Let_def split: reply.splits body.splits)

lemma get_suggested_tags_raises:
  assumes "http_post e (api_queries s) content = Raises err"
  shows "get_suggested_tags e content s = (Inl err, s\<lparr>api_queries := api_queries s + 1\<rparr>)"
  using assms
  by (simp add: get_suggested_tags_def get_suggested_tags_ollama_def
      get_suggested_tags_claude_def Let_def)

lemma retry_loop_oversized:
  assumes "\<forall>k < n. oversized (http_post e (api_queries s + k) content)"
  shows "fst (retry_loop e fp content ex (retry_count + n) retry_count s) =
           Inr \<lparr>file_name = fp, status = Failed, tags = []\<rparr> \<and>
         disk (snd (retry_loop e fp content ex (retry_count + n) retry_count s)) = disk s \<and>
         api_queries (snd (retry_loop e fp content ex (retry_count + n) retry_count s)) =
           api_queries s + n"
  using assms
proof (induction n arbitrary: s retry_count)
  case 0
  show ?case by (subst retry_loop.simps, simp)+
next
  case (Suc n)
  from Suc.prems have "oversized (http_post e (api_queries s) content)"
    by (metis add.right_neutral zero_less_Suc)
  then obtain suggested s' where g: "get_suggested_tags e content s = (Inr (Some suggested), s')"
    and l: "10 < length suggested" and d: "disk s' = disk s"
    and a: "api_queries s' = api_queries s + 1"
    using get_suggested_tags_oversized by blast
  have "\<forall>k < n. oversized (http_post e (api_queries s' + k) content)"
  proof (intro allI impI)
    fix k assume "k < n"
    then have "Suc k < Suc n" by simp
    with Suc.prems have "oversized (http_post e (api_queries s + Suc k) content)" by blast
    then show "oversized (http_post e (api_queries s' + k) content)" by (simp add: a)
  qed
  note ih = Suc.IH [OF this, of "retry_count + 1"]
  have ne: "suggested \<noteq> []" using l by auto
  have step: "retry_loop e fp content ex (Suc (retry_count + n)) retry_count s =
      retry_loop e fp content ex (Suc (retry_count + n)) (Suc retry_count) s'"
    by (subst retry_loop.simps) (simp add: g l ne)
  show ?case using ih by (simp add: step d a)
qed

lemma write_tags_status:
  "fst (write_tags e fp content ex suggested s) = Inr r \<Longrightarrow>
     status r = Tags_Updated \<and> tags r = merge_tags ex suggested"
  by (auto simp: write_tags_def Let_def split: sum.splits option.splits prod.splits)

section \<open>Facts about the scan\<close>

lemma process_files_append:
  "process_files e (xs @ ys) acc s =
     (case process_files e xs acc s of
        ((None, acc'), s1) \<Rightarrow> process_files e ys acc' s1
      | ((Some err, acc'), s1) \<Rightarrow> ((Some err, acc'), s1))"
  by (induction xs arbitrary: acc s) (auto split: prod.splits sum.splits option.splits)

lemma md_paths_sample:
  "md_paths (sample_env ollama replies) ''/vault'' =
     [''/vault/locked.md'', ''/vault/nine.md'', ''/vault/sub/two.md'']"
  by (simp add: md_paths_def sample_env_def sample_tree_def keep_dir_def os_path_join_def
      startswith_def endswith_def)

section \<open>A note with nine tags or more is left alone\<close>

text \<open>
  Claim C2, as stated, fails for a note whose tag line is its first line: the note
  \<open>Tags: #t1 ... #t9\<close>, line feed, \<open>Body\<close> carries nine tags on its tag line, but the pattern
  needs a line feed before \<open>Tags:\<close>, so \<open>extract_existing_tags\<close> returns the empty list,
  the backend is queried, and the file is written with a second tag line at its end.
\<close>

theorem nine_tags_on_first_line_counterexample:
  "extract_existing_tags note_nine_first = [] \<and>
   fst (process_file (sample_env True (\<lambda>n. Response 200 (Decoded ''#x'' 0)))
          ''/vault/nine_first.md'' 3 sample_state) =
     Inr \<lparr>file_name = ''/vault/nine_first.md'', status = Tags_Updated, tags = [''#x'']\<rparr> \<and>
   disk (snd (process_file (sample_env True (\<lambda>n. Response 200 (Decoded ''#x'' 0)))
          ''/vault/nine_first.md'' 3 sample_state)) ''/vault/nine_first.md'' =
     Inr ''Tags: #t1 #t2 #t3 #t4 #t5 #t6 #t7 #t8 #t9\<newline>Body\<newline>Tags: #x''"
  by code_simp

text \<open>
  Claim C2, amended. Let the file be readable, and let its content hold a line feed
  followed by \<open>Tags:\<close>, the leftmost one (none occurs in the text \<open>pre\<close> before it), then
  any whitespace, then nine or more tokens written \<open>#t1 #t2 ...\<close>, each a plain token,
  and then the end of the line. Then \<open>process_file\<close> writes nothing and queries no
  backend: the whole state (the content of every file and both counters) is the one
  before the call, and the outcome has status \<open>existing_tags\<close> and carries the tokens,
  without \<open>#\<close>. This holds for every backend and every retry limit.
\<close>

theorem process_file_enough_tags:
  assumes "disk s file_path = Inr (pre @ NL # ''Tags:'' @ ws @ tag_line ts @ rest)"
    and "\<not> sublist (NL # ''Tags:'') pre"
    and "\<forall>c \<in> set ws. isspace c"
    and "9 \<le> length ts"
    and "\<forall>t \<in> set ts. plain_token t"
    and "rest = [] \<or> hd rest = NL"
  shows "process_file e file_path retry_limit s =
           (Inr \<lparr>file_name = file_path, status = Existing_Tags, tags = ts\<rparr>, s)"
proof -
  have n: "ts \<noteq> []" using assms(4) by auto
  have m: "\<not> sublist marker pre" using assms(2) by (simp add: marker_def)
  define content where "content = pre @ NL # ''Tags:'' @ ws @ tag_line ts @ rest"
  have x: "extract_existing_tags content = ts"
    unfolding content_def
    using extract_existing_tags_on_tag_line [OF m assms(3) n assms(5) assms(6)]
    by (simp only: marker_append)
  have d: "disk s file_path = Inr content"
    unfolding content_def by (rule assms(1))
  show ?thesis
    using assms(4) by (simp add: process_file_def Let_def x d)
qed

theorem process_file_enough_tags_witness:
  "note_nine = ''Title'' @ NL # ''Tags:'' @ '' '' @
     tag_line [''t1'', ''t2'', ''t3'', ''t4'', ''t5'', ''t6'', ''t7'', ''t8'', ''t9''] @ ''\<newline>Body'' \<and>
   disk sample_state ''/vault/nine.md'' = Inr note_nine \<and>
   process_file (sample_env True (\<lambda>n. Raises ConnectionError)) ''/vault/nine.md'' 3 sample_state =
     (Inr \<lparr>file_name = ''/vault/nine.md'', status = Existing_Tags,
            tags = [''t1'', ''t2'', ''t3'', ''t4'', ''t5'', ''t6'', ''t7'', ''t8'', ''t9'']\<rparr>,
      sample_state)"
proof -
  let ?ts = "[''t1'', ''t2'', ''t3'', ''t4'', ''t5'', ''t6'', ''t7'', ''t8'', ''t9'']"
  have c: "note_nine = ''Title'' @ NL # ''Tags:'' @ '' '' @ tag_line ?ts @ ''\<newline>Body''"
    by (simp add: note_nine_def tag_line_def)
  have d: "disk sample_state ''/vault/nine.md'' = Inr note_nine"
    by (simp add: sample_state_def sample_disk_def)
  have h1: "disk sample_state ''/vault/nine.md'' =
      Inr (''Title'' @ NL # ''Tags:'' @ '' '' @ tag_line ?ts @ ''\<newline>Body'')"
    using c d by simp
  have h2: "\<not> sublist (NL # ''Tags:'') ''Title''" by code_simp
  have h3: "\<forall>c \<in> set '' ''. isspace c" by (simp add: isspace_def)
  have h4: "9 \<le> length ?ts" by simp
  have h5: "\<forall>t \<in> set ?ts. plain_token t" by (simp add: plain_token_def isspace_def)
  have h6: "''\<newline>Body'' = [] \<or> hd ''\<newline>Body'' = NL" by simp
  from process_file_enough_tags [OF h1 h2 h3 h4 h5 h6] c d show ?thesis by blast
qed

section \<open>Statistics of a run without files\<close>

text \<open>
  Claim C4. With no processed file \<open>print_statistics\<close> prints the four counts, all 0,
  and the run time, and then raises \<open>ZeroDivisionError\<close> at
  \<^verbatim>\<open>run_time/total_files\<close>: no average is printed, neither 0 nor a not-applicable value.
\<close>

theorem print_statistics_no_files:
  "print_statistics e s [] =
     ([Total_Files 0, Files_Updated 0, Files_Existing 0, Files_Failed 0,
       Total_Run_Time (run_time e)],
      Some ZeroDivisionError)"
  by (simp add: print_statistics_def truediv_def)

section \<open>What extract\_existing\_tags returns\<close>

text \<open>
  Claim C1, as stated, fails twice. For the note \<open>note\<close>, line feed, \<open>Tags: #a #b #c\<close> the
  function returns \<open>a\<close>, \<open>b\<close>, \<open>c\<close>, the pieces without the \<open>#\<close>, and not \<open>#a\<close>, \<open>#b\<close>,
  \<open>#c\<close>. And for the content \<open>Tags: #a #b #c\<close>, whose tag line is the first line, it
  returns the empty list, because the pattern starts with a line feed.
\<close>

theorem extract_drops_hash_counterexample:
  "extract_existing_tags ''note\<newline>Tags: #a #b #c'' = [''a'', ''b'', ''c''] \<and>
   extract_existing_tags ''note\<newline>Tags: #a #b #c'' \<noteq> [''#a'', ''#b'', ''#c''] \<and>
   extract_existing_tags ''Tags: #a #b #c'' = []"
  by code_simp

text \<open>
  Claim C1, amended. Let the content hold a line feed followed by \<open>Tags:\<close>, the leftmost
  one (none occurs in the text \<open>pre\<close> before it; a tag line on the first line of the
  content has no line feed before it and does not count), then any whitespace, then
  the tokens \<open>ts\<close> written \<open>#a #b #c\<close> (plain tokens, each prefixed with \<open>#\<close>, one space
  between them), and then the end of the line (the end of the text or a line feed).
  Then \<open>extract_existing_tags\<close> returns exactly the tokens in order, trimmed and without
  the \<open>#\<close> prefix. The prefix is put back later, in \<open>process_file\<close> (\<open>correct_tag\<close>).
\<close>

theorem extract_tag_line:
  assumes "\<not> sublist (NL # ''Tags:'') pre"
    and "\<forall>c \<in> set ws. isspace c"
    and "ts \<noteq> []"
    and "\<forall>t \<in> set ts. plain_token t"
    and "rest = [] \<or> hd rest = NL"
  shows "extract_existing_tags (pre @ NL # ''Tags:'' @ ws @ tag_line ts @ rest) = ts"
proof -
  have m: "\<not> sublist marker pre" using assms(1) by (simp add: marker_def)
  show ?thesis
    using extract_existing_tags_on_tag_line [OF m assms(2) assms(3) assms(4) assms(5)]
    by (simp only: marker_append)
qed

theorem extract_tag_line_witness:
  "''note'' @ NL # ''Tags:'' @ '' '' @ tag_line [''a'', ''b'', ''c''] @ ''\<newline>Body'' =
     ''note\<newline>Tags: #a #b #c\<newline>Body'' \<and>
   extract_existing_tags (''note'' @ NL # ''Tags:'' @ '' '' @ tag_line [''a'', ''b'', ''c''] @ ''\<newline>Body'') =
     [''a'', ''b'', ''c'']"
proof -
  have h1: "\<not> sublist (NL # ''Tags:'') ''note''" by code_simp
  have h2: "\<forall>c \<in> set '' ''. isspace c" by (simp add: isspace_def)
  have h3: "[''a'', ''b'', ''c''] \<noteq> []" by simp
  have h4: "\<forall>t \<in> set [''a'', ''b'', ''c'']. plain_token t"
    by (simp add: plain_token_def isspace_def)
  have h5: "''\<newline>Body'' = [] \<or> hd ''\<newline>Body'' = NL" by simp
  have "''note'' @ NL # ''Tags:'' @ '' '' @ tag_line [''a'', ''b'', ''c''] @ ''\<newline>Body'' =
     ''note\<newline>Tags: #a #b #c\<newline>Body''"
    by (simp add: tag_line_def)
  with extract_tag_line [OF h1 h2 h3 h4 h5] show ?thesis by simp
qed

section \<open>A tag line on the first line\<close>

text \<open>
  Claim C10. When the content starts with \<open>Tags:\<close> and no line feed followed by \<open>Tags:\<close>
  occurs in it (its tag line is the first line, and the only one), the pattern, which
  starts with a line feed, does not match: \<open>extract_existing_tags\<close> returns the empty list,
  the rewrite appends a line feed and a second tag line at the end of the unchanged
  content, and that is what lines 62 to 80 write to the file (or start to write, when
  the write fails).
\<close>

theorem tag_line_first_not_found:
  assumes "startswith content ''Tags:''"
    and "\<not> sublist marker content"
  shows "extract_existing_tags content = [] \<and>
         rewrite_content e content tag_string = Inr (content @ NL # ''Tags: '' @ tag_string) \<and>
         write_tags e file_path content (extract_existing_tags content) suggested_tags s =
           (case open_w e file_path of
              Some err \<Rightarrow> (Inl err, s)
            | None \<Rightarrow>
                (case file_write e file_path
                        (content @ NL # ''Tags: '' @ join '' '' (merge_tags [] suggested_tags)) of
                   Some (err, n) \<Rightarrow>
                     (Inl err, s\<lparr>disk := (disk s)(file_path :=
                        Inr (take n (content @ NL # ''Tags: '' @
                                     join '' '' (merge_tags [] suggested_tags))))\<rparr>)
                 | None \<Rightarrow>
                     (Inr \<lparr>file_name = file_path, status = Tags_Updated,
                            tags = merge_tags [] suggested_tags\<rparr>,
                      s\<lparr>disk := (disk s)(file_path :=
                        Inr (content @ NL # ''Tags: '' @
                             join '' '' (merge_tags [] suggested_tags)))\<rparr>)))"
proof -
  have "search_marker content = None"
    using assms(2) by (simp add: search_marker_None_iff)
  then have n: "re_search content = None"
    by (simp add: re_search_def)
  then have x: "extract_existing_tags content = []"
    by (simp add: extract_existing_tags_def)
  have r: "\<And>t. rewrite_content e content t = Inr (content @ NL # ''Tags: '' @ t)"
    using n by (simp add: rewrite_content_def)
  show ?thesis
    by (simp add: x r write_tags_def Let_def split: option.split prod.split)
qed

theorem tag_line_first_not_found_witness:
  "startswith note_first_line ''Tags:'' \<and>
   extract_existing_tags note_first_line = [] \<and>
   rewrite_content (sample_env True (\<lambda>n. Raises ConnectionError)) note_first_line ''#c'' =
     Inr ''Tags: #a #b\<newline>Body\<newline>Tags: #c''"
proof -
  have h1: "startswith note_first_line ''Tags:''" by code_simp
  have h2: "\<not> sublist marker note_first_line" by code_simp
  from tag_line_first_not_found [OF h1 h2, of "sample_env True (\<lambda>n. Raises ConnectionError)" "''#c''"] h1
  show ?thesis by (simp add: note_first_line_def)
qed


section \<open>An empty suggestion\<close>

text \<open>
  Claim C3, as stated, fails for the empty list: the local backend answers with an empty
  text, \<open>get_suggested_tags\<close> returns the empty list (zero tags, at most ten), and
  \<open>process_file\<close> ends with status \<open>failed\<close> and writes nothing, because
  \<^verbatim>\<open>if suggested_tags:\<close> is false for the empty list.
\<close>

theorem empty_suggestion_fails_counterexample:
  "fst (get_suggested_tags (sample_env True (\<lambda>n. Response 200 (Decoded [] 0)))
          note_two sample_state) = Inr (Some []) \<and>
   fst (process_file (sample_env True (\<lambda>n. Response 200 (Decoded [] 0)))
          ''/vault/sub/two.md'' 3 sample_state) =
     Inr \<lparr>file_name = ''/vault/sub/two.md'', status = Failed, tags = []\<rparr> \<and>
   disk (snd (process_file (sample_env True (\<lambda>n. Response 200 (Decoded [] 0)))
          ''/vault/sub/two.md'' 3 sample_state)) ''/vault/sub/two.md'' = Inr note_two"
  by code_simp

text \<open>
  Claim C3, amended. In any round of the loop (\<open>retry_count < retry_limit\<close>), when
  \<open>get_suggested_tags\<close> returns a list of at most ten tags, the loop ends in that round:
  with \<open>failed\<close> when the list is empty, and otherwise with the merge and write steps of
  lines 62 to 80. Those steps never give status \<open>failed\<close>: an outcome they return has status
  \<open>tags_updated\<close> and the merged tags. When the rewrite succeeds, the file is written as
  lines 77 and 78 do: the new content is on disk when the file can be opened and
  written, the file is as it was when it cannot be opened, and it holds a part of the
  new content when the write fails.
\<close>

theorem usable_suggestion_is_written:
  assumes "retry_count < retry_limit"
    and "get_suggested_tags e content s = (Inr (Some suggested_tags), s')"
    and "length suggested_tags \<le> 10"
  shows "retry_loop e file_path content existing_tags retry_limit retry_count s =
           (if suggested_tags = []
            then (Inr \<lparr>file_name = file_path, status = Failed, tags = []\<rparr>, s')
            else write_tags e file_path content existing_tags suggested_tags s') \<and>
         (\<forall>r. fst (write_tags e file_path content existing_tags suggested_tags s') = Inr r
              \<longrightarrow> status r = Tags_Updated \<and> tags r = merge_tags existing_tags suggested_tags) \<and>
         (\<forall>content'. rewrite_content e content (join '' '' (merge_tags existing_tags suggested_tags))
                = Inr content'
              \<longrightarrow> write_tags e file_path content existing_tags suggested_tags s' =
                    (case open_w e file_path of
                       Some err \<Rightarrow> (Inl err, s')
                     | None \<Rightarrow>
                         (case file_write e file_path content' of
                            Some (err, n) \<Rightarrow>
                              (Inl err, s'\<lparr>disk := (disk s')(file_path := Inr (take n content'))\<rparr>)
                          | None \<Rightarrow>
                              (Inr \<lparr>file_name = file_path, status = Tags_Updated,
                                     tags = merge_tags existing_tags suggested_tags\<rparr>,
                               s'\<lparr>disk := (disk s')(file_path := Inr content')\<rparr>))))"
proof (intro conjI allI impI)
  show "retry_loop e file_path content existing_tags retry_limit retry_count s =
           (if suggested_tags = []
            then (Inr \<lparr>file_name = file_path, status = Failed, tags = []\<rparr>, s')
            else write_tags e file_path content existing_tags suggested_tags s')"
    using assms by (subst retry_loop.simps) simp
next
  fix r assume "fst (write_tags e file_path content existing_tags suggested_tags s') = Inr r"
  then show "status r = Tags_Updated" "tags r = merge_tags existing_tags suggested_tags"
    using write_tags_status by blast+
next
  fix content'
  assume "rewrite_content e content (join '' '' (merge_tags existing_tags suggested_tags))
                = Inr content'"
  then show "write_tags e file_path content existing_tags suggested_tags s' =
                    (case open_w e file_path of
                       Some err \<Rightarrow> (Inl err, s')
                     | None \<Rightarrow>
                         (case file_write e file_path content' of
                            Some (err, n) \<Rightarrow>
                              (Inl err, s'\<lparr>disk := (disk s')(file_path := Inr (take n content'))\<rparr>)
                          | None \<Rightarrow>
                              (Inr \<lparr>file_name = file_path, status = Tags_Updated,
                                     tags = merge_tags existing_tags suggested_tags\<rparr>,
                               s'\<lparr>disk := (disk s')(file_path := Inr content')\<rparr>)))"
    by (simp add: write_tags_def Let_def)
qed

theorem usable_suggestion_is_written_witness:
  "fst (get_suggested_tags (sample_env True (\<lambda>n. Response 200 (Decoded ''#b #c'' 0)))
          note_two sample_state) = Inr (Some [''#b'', ''#c'']) \<and>
   fst (retry_loop (sample_env True (\<lambda>n. Response 200 (Decoded ''#b #c'' 0)))
          ''/vault/sub/two.md'' note_two [''a'', ''b''] 3 0 sample_state) =
     Inr \<lparr>file_name = ''/vault/sub/two.md'', status = Tags_Updated,
            tags = [''#a'', ''#b'', ''#b'', ''#c'']\<rparr>"
proof -
  let ?e = "sample_env True (\<lambda>n. Response 200 (Decoded ''#b #c'' 0))"
  let ?s' = "snd (get_suggested_tags ?e note_two sample_state)"
  have f: "fst (get_suggested_tags ?e note_two sample_state) = Inr (Some [''#b'', ''#c''])"
    by code_simp
  then have h2: "get_suggested_tags ?e note_two sample_state = (Inr (Some [''#b'', ''#c'']), ?s')"
    by (metis prod.collapse)
  have h1: "(0::nat) < 3" by simp
  have h3: "length [''#b'', ''#c''] \<le> 10" by simp
  have w: "fst (write_tags ?e ''/vault/sub/two.md'' note_two [''a'', ''b''] [''#b'', ''#c''] ?s') =
     Inr \<lparr>file_name = ''/vault/sub/two.md'', status = Tags_Updated,
            tags = [''#a'', ''#b'', ''#b'', ''#c'']\<rparr>"
    by code_simp
  from usable_suggestion_is_written [OF h1 h2 h3, of "''/vault/sub/two.md''" "[''a'', ''b'']"] f w
  show ?thesis by simp
qed

section \<open>The merge does not compare canonical forms\<close>

text \<open>
  Claim C7. The example of the claim holds: merging \<open>#a #b\<close> with \<open>#b #c\<close> gives
  \<open>#a #b #c\<close>. But line 63 compares the suggested tag with the existing tags as they
  are, before any tag is corrected, and \<open>extract_existing_tags\<close> returns the existing tags
  without \<open>#\<close>. For the note \<open>note\<close>, line feed, \<open>Tags: #a #b\<close> and the suggestion \<open>#b #c\<close>
  the existing tags are \<open>a\<close>, \<open>b\<close>, the suggested \<open>#b\<close> is not among them, and the file is
  written with the tag line \<open>Tags: #a #b #b #c\<close>.
\<close>

theorem duplicate_tag_written:
  "merge_tags [''#a'', ''#b''] [''#b'', ''#c''] = [''#a'', ''#b'', ''#c''] \<and>
   extract_existing_tags note_two = [''a'', ''b''] \<and>
   merge_tags [''a'', ''b''] [''#b'', ''#c''] = [''#a'', ''#b'', ''#b'', ''#c''] \<and>
   fst (process_file (sample_env True (\<lambda>n. Response 200 (Decoded ''#b #c'' 0)))
          ''/vault/sub/two.md'' 3 sample_state) =
     Inr \<lparr>file_name = ''/vault/sub/two.md'', status = Tags_Updated,
            tags = [''#a'', ''#b'', ''#b'', ''#c'']\<rparr> \<and>
   disk (snd (process_file (sample_env True (\<lambda>n. Response 200 (Decoded ''#b #c'' 0)))
          ''/vault/sub/two.md'' 3 sample_state)) ''/vault/sub/two.md'' =
     Inr ''note\<newline>Tags: #a #b #b #c''"
  by code_simp

section \<open>The merged tags\<close>

text \<open>
  Claim C8, as stated, fails where it says that every element starts with a single \<open>#\<close>:
  line 67 only tests \<open>startswith('#')\<close>, so the suggested tag \<open>##a\<close>, which the remote
  backend returns when the generated text is \<open>##a\<close>, is kept as it is.
\<close>

theorem merge_keeps_double_hash_counterexample:
  "fst (get_suggested_tags (sample_env False (\<lambda>n. Response 200 (Decoded ''##a'' 0)))
          note_first_line sample_state) = Inr (Some [''##a'']) \<and>
   merge_tags [] [''##a''] = [''##a''] \<and> startswith ''##a'' ''##''"
  by code_simp

text \<open>
  Claim C8, amended. For all tag sequences the merged sequence has at most ten elements
  and every element starts with \<open>#\<close>: it is an input tag kept as it is when that tag
  starts with \<open>#\<close>, and otherwise the trimmed input tag with one \<open>#\<close> before it. Merging
  nine existing with nine suggested tags, all distinct, gives exactly ten: the nine
  existing tags, corrected, and then the first suggested tag, corrected.
\<close>

theorem merge_tags_bounded:
  "length (merge_tags existing_tags suggested_tags) \<le> 10 \<and>
   (\<forall>t \<in> set (merge_tags existing_tags suggested_tags).
      startswith t ''#'' \<and>
      (\<exists>u \<in> set (existing_tags @ suggested_tags).
         t = (if startswith u ''#'' then u else HASH # strip u))) \<and>
   (length existing_tags = 9 \<and> length suggested_tags = 9 \<and>
    distinct (existing_tags @ suggested_tags) \<longrightarrow>
      length (merge_tags existing_tags suggested_tags) = 10 \<and>
      merge_tags existing_tags suggested_tags =
        map correct_tag existing_tags @ [correct_tag (hd suggested_tags)])"
proof (intro conjI ballI impI)
  show "length (merge_tags existing_tags suggested_tags) \<le> 10"
    by (simp add: merge_tags_def)
next
  fix t assume t: "t \<in> set (merge_tags existing_tags suggested_tags)"
  then obtain u where u: "u \<in> set (existing_tags @ suggested_tags)" "t = correct_tag u"
    using merge_tags_image by blast
  show "startswith t ''#''" using u by (simp add: startswith_correct_tag)
  show "\<exists>u \<in> set (existing_tags @ suggested_tags).
         t = (if startswith u ''#'' then u else HASH # strip u)"
    using u by (auto simp: correct_tag_def)
next
  assume a: "length existing_tags = 9 \<and> length suggested_tags = 9 \<and>
    distinct (existing_tags @ suggested_tags)"
  then have n: "suggested_tags \<noteq> []" and d: "set existing_tags \<inter> set suggested_tags = {}"
    by auto
  from a have l: "length existing_tags = 9" by simp
  show m: "merge_tags existing_tags suggested_tags =
        map correct_tag existing_tags @ [correct_tag (hd suggested_tags)]"
    by (rule merge_tags_nine_nine [OF l n d])
  show "length (merge_tags existing_tags suggested_tags) = 10"
    by (simp add: m l)
qed

theorem merge_tags_bounded_witness:
  "length nine_existing = 9 \<and> length nine_suggested = 9 \<and>
   distinct (nine_existing @ nine_suggested) \<and>
   merge_tags nine_existing nine_suggested =
     [''#t1'', ''#t2'', ''#t3'', ''#t4'', ''#t5'', ''#t6'', ''#t7'', ''#t8'', ''#t9'', ''#s1'']"
proof -
  have h: "length nine_existing = 9 \<and> length nine_suggested = 9 \<and>
      distinct (nine_existing @ nine_suggested)"
    by (simp add: nine_existing_def nine_suggested_def)
  have c: "map correct_tag nine_existing @ [correct_tag (hd nine_suggested)] =
     [''#t1'', ''#t2'', ''#t3'', ''#t4'', ''#t5'', ''#t6'', ''#t7'', ''#t8'', ''#t9'', ''#s1'']"
    by code_simp
  from merge_tags_bounded [of nine_existing nine_suggested] h c show ?thesis by simp
qed

section \<open>The retry policy\<close>

text \<open>
  Claim C9, as stated, fails for a transport failure that \<open>requests.post\<close> raises (no
  server listening, say): neither backend catches it, and \<open>process_file\<close> raises it
  instead of returning an outcome.
\<close>

theorem transport_exception_counterexample:
  "fst (process_file (sample_env True (\<lambda>n. Raises ConnectionError))
          ''/vault/sub/two.md'' 3 sample_state) = Inl ConnectionError \<and>
   fst (process_file (sample_env False (\<lambda>n. Raises ConnectionError))
          ''/vault/sub/two.md'' 3 sample_state) = Inl ConnectionError"
  by code_simp

text \<open>
  Claim C9, amended. Let the file be readable with fewer than nine tags.
  \<^item> If every one of the \<open>retry_limit\<close> consecutive replies (three in \<open>scan_directory\<close>) is
    oversized, the outcome is \<open>failed\<close> after exactly \<open>retry_limit\<close> queries and no file
    has changed.
  \<^item> If the first reply is a failure that \<open>get_suggested_tags\<close> reports by \<open>None\<close> (a status
    other than 200 from either backend, a decoding error of the local backend), the
    outcome is \<open>failed\<close> after exactly one query; nothing but the query counter changes.
  \<^item> If \<open>requests.post\<close> raises, the exception leaves \<open>process_file\<close> after that one
    query; again nothing else changes.
  So only the oversized reply is retried.
\<close>

theorem retry_policy:
  assumes "disk s file_path = Inr content"
    and "length (extract_existing_tags content) < 9"
  shows "((\<forall>k < retry_limit. oversized (http_post e (api_queries s + k) content)) \<longrightarrow>
            fst (process_file e file_path retry_limit s) =
              Inr \<lparr>file_name = file_path, status = Failed, tags = []\<rparr> \<and>
            disk (snd (process_file e file_path retry_limit s)) = disk s \<and>
            api_queries (snd (process_file e file_path retry_limit s)) =
              api_queries s + retry_limit) \<and>
         (0 < retry_limit \<and> reported_failure (use_ollama e) (http_post e (api_queries s) content) \<longrightarrow>
            process_file e file_path retry_limit s =
              (Inr \<lparr>file_name = file_path, status = Failed, tags = []\<rparr>,
               s\<lparr>api_queries := api_queries s + 1\<rparr>)) \<and>
         (\<forall>err. 0 < retry_limit \<and> http_post e (api_queries s) content = Raises err \<longrightarrow>
            process_file e file_path retry_limit s =
              (Inl err, s\<lparr>api_queries := api_queries s + 1\<rparr>))"
proof -
  have p: "process_file e file_path retry_limit s =
      retry_loop e file_path content (extract_existing_tags content) retry_limit 0 s"
    using assms by (simp add: process_file_def Let_def)
  show ?thesis
  proof (intro conjI allI impI)
    assume "\<forall>k < retry_limit. oversized (http_post e (api_queries s + k) content)"
    from retry_loop_oversized [OF this, of file_path "extract_existing_tags content" 0]
    show "fst (process_file e file_path retry_limit s) =
              Inr \<lparr>file_name = file_path, status = Failed, tags = []\<rparr>"
      and "disk (snd (process_file e file_path retry_limit s)) = disk s"
      and "api_queries (snd (process_file e file_path retry_limit s)) =
              api_queries s + retry_limit"
      by (simp_all add: p)
  next
    assume a: "0 < retry_limit \<and>
      reported_failure (use_ollama e) (http_post e (api_queries s) content)"
    then have g: "get_suggested_tags e content s = (Inr None, s\<lparr>api_queries := api_queries s + 1\<rparr>)"
      using get_suggested_tags_reported_failure by blast
    show "process_file e file_path retry_limit s =
              (Inr \<lparr>file_name = file_path, status = Failed, tags = []\<rparr>,
               s\<lparr>api_queries := api_queries s + 1\<rparr>)"
      unfolding p using a by (subst retry_loop.simps) (simp add: g)
  next
    fix err
    assume a: "0 < retry_limit \<and> http_post e (api_queries s) content = Raises err"
    then have g: "get_suggested_tags e content s = (Inl err, s\<lparr>api_queries := api_queries s + 1\<rparr>)"
      using get_suggested_tags_raises by blast
    show "process_file e file_path retry_limit s =
              (Inl err, s\<lparr>api_queries := api_queries s + 1\<rparr>)"
      unfolding p using a by (subst retry_loop.simps) (simp add: g)
  qed
qed

theorem retry_policy_witness:
  "oversized (Response 200 (Decoded eleven_tags 0)) \<and>
   fst (process_file (sample_env True (\<lambda>n. Response 200 (Decoded eleven_tags 0)))
          ''/vault/sub/two.md'' 3 sample_state) =
     Inr \<lparr>file_name = ''/vault/sub/two.md'', status = Failed, tags = []\<rparr> \<and>
   disk (snd (process_file (sample_env True (\<lambda>n. Response 200 (Decoded eleven_tags 0)))
          ''/vault/sub/two.md'' 3 sample_state)) = sample_disk \<and>
   api_queries (snd (process_file (sample_env True (\<lambda>n. Response 200 (Decoded eleven_tags 0)))
          ''/vault/sub/two.md'' 3 sample_state)) = 3 \<and>
   process_file (sample_env False (\<lambda>n. Response 500 (Undecodable JSONDecodeError)))
          ''/vault/sub/two.md'' 3 sample_state =
     (Inr \<lparr>file_name = ''/vault/sub/two.md'', status = Failed, tags = []\<rparr>,
      sample_state\<lparr>api_queries := 1\<rparr>)"
proof -
  let ?e = "sample_env True (\<lambda>n. Response 200 (Decoded eleven_tags 0))"
  let ?f = "sample_env False (\<lambda>n. Response 500 (Undecodable JSONDecodeError))"
  have h1: "disk sample_state ''/vault/sub/two.md'' = Inr note_two"
    by (simp add: sample_state_def sample_disk_def)
  have h2: "length (extract_existing_tags note_two) < 9" by code_simp
  have o: "oversized (Response 200 (Decoded eleven_tags 0))" by code_simp
  then have a: "\<forall>k < 3. oversized (http_post ?e (api_queries sample_state + k) note_two)"
    by (simp add: sample_env_def)
  have b: "0 < (3::nat) \<and>
      reported_failure (use_ollama ?f) (http_post ?f (api_queries sample_state) note_two)"
    by (simp add: sample_env_def reported_failure_def)
  have q: "api_queries sample_state = 0" "disk sample_state = sample_disk"
    by (simp_all add: sample_state_def)
  from retry_policy [OF h1 h2, of 3 ?e] a retry_policy [OF h1 h2, of 3 ?f] b o q
  show ?thesis by simp
qed

section \<open>A root directory that does not exist\<close>

text \<open>
  Claim C5, as stated, fails: \<open>scan_directory\<close> never tests whether the root exists, and
  \<open>os.walk\<close> ignores the error of listing it and yields nothing. For the path
  \<open>/no/such/dir\<close> no error about the directory is raised; the loop visits no file and
  \<open>print_statistics\<close> runs on the empty list.
\<close>

theorem missing_root_counterexample:
  "os_walk (sample_env True (\<lambda>n. Raises ConnectionError)) ''/no/such/dir'' = None \<and>
   scan_directory (sample_env True (\<lambda>n. Raises ConnectionError)) ''/no/such/dir'' sample_state =
     (\<lparr>processed = [],
       printed = [Total_Files 0, Files_Updated 0, Files_Existing 0, Files_Failed 0,
                  Total_Run_Time 2],
       raised = Some ZeroDivisionError\<rparr>, sample_state) \<and>
   raised (fst (scan_directory (sample_env True (\<lambda>n. Raises ConnectionError))
                  ''/no/such/dir'' sample_state)) \<noteq> Some OSError"
  by (simp add: scan_directory_def md_paths_def sample_env_def print_statistics_def truediv_def)

text \<open>
  Claim C5, amended. For every root that cannot be listed (it does not exist),
  \<open>scan_directory\<close> raises no error about the directory: no path is handed to
  \<open>process_file\<close>, so no file is read or written and no backend is queried (the state is
  unchanged), and what is printed and raised is what \<open>print_statistics\<close> does on the empty
  list of outcomes.
\<close>

theorem missing_root_walks_nothing:
  assumes "os_walk e directory = None"
  shows "md_paths e directory = [] \<and>
         scan_directory e directory s =
           (\<lparr>processed = [], printed = fst (print_statistics e s []),
             raised = snd (print_statistics e s [])\<rparr>, s)"
  using assms by (simp add: md_paths_def scan_directory_def split: prod.splits)

theorem missing_root_walks_nothing_witness:
  "os_walk (sample_env False (\<lambda>n. Raises ConnectionError)) ''/no/such/dir'' = None \<and>
   md_paths (sample_env False (\<lambda>n. Raises ConnectionError)) ''/no/such/dir'' = [] \<and>
   processed (fst (scan_directory (sample_env False (\<lambda>n. Raises ConnectionError))
                  ''/no/such/dir'' sample_state)) = [] \<and>
   snd (scan_directory (sample_env False (\<lambda>n. Raises ConnectionError))
                  ''/no/such/dir'' sample_state) = sample_state"
proof -
  have h: "os_walk (sample_env False (\<lambda>n. Raises ConnectionError)) ''/no/such/dir'' = None"
    by (simp add: sample_env_def)
  from missing_root_walks_nothing [OF h, of sample_state] h show ?thesis by simp
qed

section \<open>File errors\<close>

text \<open>
  Claim C6, as stated, fails: \<open>process_file\<close> has no handler around \<open>open\<close>, \<open>read\<close> or
  \<open>write\<close>. In the sample vault the first file of the walk cannot be read;
  \<open>process_file\<close> raises \<open>OSError\<close>, and \<open>scan_directory\<close> ends with that exception: the two
  other notes are not processed and no statistics are printed.
\<close>

theorem unreadable_file_aborts_scan_counterexample:
  "md_paths (sample_env True (\<lambda>n. Response 200 (Decoded ''#x'' 0))) ''/vault'' =
     [''/vault/locked.md'', ''/vault/nine.md'', ''/vault/sub/two.md''] \<and>
   process_file (sample_env True (\<lambda>n. Response 200 (Decoded ''#x'' 0)))
     ''/vault/locked.md'' 3 sample_state = (Inl OSError, sample_state) \<and>
   scan_directory (sample_env True (\<lambda>n. Response 200 (Decoded ''#x'' 0))) ''/vault'' sample_state =
     (\<lparr>processed = [], printed = [], raised = Some OSError\<rparr>, sample_state)"
proof -
  have p: "process_file (sample_env True (\<lambda>n. Response 200 (Decoded ''#x'' 0)))
     ''/vault/locked.md'' 3 sample_state = (Inl OSError, sample_state)"
    by (simp add: process_file_def sample_state_def sample_disk_def)
  show ?thesis
    by (simp add: md_paths_sample p scan_directory_def)
qed

text \<open>
  Claim C6, amended. A file error is not caught anywhere and gives no outcome.
  \<^item> When the file cannot be read, \<open>process_file\<close> raises the error.
  \<^item> When the file cannot be opened for writing, lines 62 to 80 raise the error; the
    file is as it was.
  \<^item> When the file is opened and the write fails, lines 62 to 80 raise the error; the
    file has lost its old content and holds the part of the new content written so
    far.
  \<^item> When \<open>process_file\<close> raises on some file of the walk, \<open>scan_directory\<close> ends with
    that exception, holding the outcomes of the files before it: the files after it
    are not processed and no statistics are printed.
\<close>

theorem io_error_leaves_process_file:
  "(disk s file_path = Inl err \<longrightarrow> process_file e file_path retry_limit s = (Inl err, s)) \<and>
   (rewrite_content e content (join '' '' (merge_tags existing_tags suggested_tags)) = Inr content' \<and>
    open_w e file_path = Some err \<longrightarrow>
      write_tags e file_path content existing_tags suggested_tags s = (Inl err, s)) \<and>
   (rewrite_content e content (join '' '' (merge_tags existing_tags suggested_tags)) = Inr content' \<and>
    open_w e file_path = None \<and> file_write e file_path content' = Some (err, n) \<longrightarrow>
      write_tags e file_path content existing_tags suggested_tags s =
        (Inl err, s\<lparr>disk := (disk s)(file_path := Inr (take n content'))\<rparr>)) \<and>
   (md_paths e directory = earlier @ file_path # remaining \<and>
    process_files e earlier [] s_start = ((None, outcomes), s_before) \<and>
    process_file e file_path 3 s_before = (Inl err, s_after) \<longrightarrow>
      scan_directory e directory s_start =
        (\<lparr>processed = outcomes, printed = [], raised = Some err\<rparr>, s_after))"
proof (intro conjI impI)
  assume "disk s file_path = Inl err"
  then show "process_file e file_path retry_limit s = (Inl err, s)"
    by (simp add: process_file_def)
next
  assume "rewrite_content e content (join '' '' (merge_tags existing_tags suggested_tags)) = Inr content' \<and>
    open_w e file_path = Some err"
  then show "write_tags e file_path content existing_tags suggested_tags s = (Inl err, s)"
    by (simp add: write_tags_def Let_def)
next
  assume "rewrite_content e content (join '' '' (merge_tags existing_tags suggested_tags)) = Inr content' \<and>
    open_w e file_path = None \<and> file_write e file_path content' = Some (err, n)"
  then show "write_tags e file_path content existing_tags suggested_tags s =
        (Inl err, s\<lparr>disk := (disk s)(file_path := Inr (take n content'))\<rparr>)"
    by (simp add: write_tags_def Let_def)
next
  assume a: "md_paths e directory = earlier @ file_path # remaining \<and>
    process_files e earlier [] s_start = ((None, outcomes), s_before) \<and>
    process_file e file_path 3 s_before = (Inl err, s_after)"
  then have "process_files e (md_paths e directory) [] s_start = ((Some err, outcomes), s_after)"
    by (simp add: process_files_append)
  then show "scan_directory e directory s_start =
        (\<lparr>processed = outcomes, printed = [], raised = Some err\<rparr>, s_after)"
    by (simp add: scan_directory_def)
qed

theorem io_error_leaves_process_file_witness:
  "disk sample_state ''/vault/locked.md'' = Inl OSError \<and>
   process_file (sample_env True (\<lambda>n. Response 200 (Decoded ''#x'' 0)))
     ''/vault/locked.md'' 3 sample_state = (Inl OSError, sample_state) \<and>
   write_tags ((sample_env True (\<lambda>n. Response 200 (Decoded ''#x'' 0)))\<lparr>open_w := \<lambda>path. Some OSError\<rparr>)
     ''/vault/first.md'' note_first_line [] [''#x''] sample_state = (Inl OSError, sample_state) \<and>
   write_tags ((sample_env True (\<lambda>n. Response 200 (Decoded ''#x'' 0)))
                 \<lparr>file_write := \<lambda>path content. Some (OSError, 4)\<rparr>)
     ''/vault/first.md'' note_first_line [] [''#x''] sample_state =
       (Inl OSError, sample_state\<lparr>disk := (disk sample_state)(''/vault/first.md'' := Inr ''Tags'')\<rparr>) \<and>
   scan_directory (sample_env True (\<lambda>n. Response 200 (Decoded ''#x'' 0))) ''/vault'' sample_state =
     (\<lparr>processed = [], printed = [], raised = Some OSError\<rparr>, sample_state)"
proof -
  let ?e = "sample_env True (\<lambda>n. Response 200 (Decoded ''#x'' 0))"
  let ?w = "?e\<lparr>open_w := \<lambda>path. Some OSError\<rparr>"
  let ?v = "?e\<lparr>file_write := \<lambda>path content. Some (OSError, 4)\<rparr>"
  let ?new = "''Tags: #a #b\<newline>Body\<newline>Tags: #x''"
  have h1: "disk sample_state ''/vault/locked.md'' = Inl OSError"
    by (simp add: sample_state_def sample_disk_def)
  have h2: "rewrite_content ?w note_first_line (join '' '' (merge_tags [] [''#x''])) =
      Inr ?new \<and> open_w ?w ''/vault/first.md'' = Some OSError"
    by code_simp
  have h2': "rewrite_content ?v note_first_line (join '' '' (merge_tags [] [''#x''])) =
      Inr ?new \<and> open_w ?v ''/vault/first.md'' = None \<and>
      file_write ?v ''/vault/first.md'' ?new = Some (OSError, 4)"
    by code_simp
  have h3: "md_paths ?e ''/vault'' = [] @ ''/vault/locked.md'' # [''/vault/nine.md'', ''/vault/sub/two.md'']"
    by (simp add: md_paths_sample)
  have h4: "process_files ?e [] [] sample_state = ((None, []), sample_state)" by simp
  have tk: "take 4 ?new = ''Tags''" by simp
  note t1 = io_error_leaves_process_file [where s = sample_state
      and file_path = "''/vault/locked.md''" and err = OSError and e = ?e and retry_limit = 3]
  note t2 = io_error_leaves_process_file [where file_path = "''/vault/first.md''"
      and err = OSError and e = ?w and content = note_first_line and existing_tags = "[]"
      and suggested_tags = "[''#x'']" and content' = ?new and s = sample_state]
  note t2' = io_error_leaves_process_file [where file_path = "''/vault/first.md''"
      and err = OSError and e = ?v and content = note_first_line and existing_tags = "[]"
      and suggested_tags = "[''#x'']" and content' = ?new and s = sample_state and n = 4]
  note t3 = io_error_leaves_process_file [where file_path = "''/vault/locked.md''"
      and err = OSError and e = ?e and directory = "''/vault''" and earlier = "[]"
      and remaining = "[''/vault/nine.md'', ''/vault/sub/two.md'']" and s_start = sample_state
      and outcomes = "[]" and s_before = sample_state and s_after = sample_state]
  from t1 h1 have p: "process_file ?e ''/vault/locked.md'' 3 sample_state = (Inl OSError, sample_state)"
    by blast
  from t2 h2 have w: "write_tags ?w ''/vault/first.md'' note_first_line [] [''#x''] sample_state
      = (Inl OSError, sample_state)" by blast
  from t2' h2' have "write_tags ?v ''/vault/first.md'' note_first_line [] [''#x''] sample_state
      = (Inl OSError, sample_state\<lparr>disk := (disk sample_state)(''/vault/first.md'' := Inr (take 4 ?new))\<rparr>)"
    by blast
  then have v: "write_tags ?v ''/vault/first.md'' note_first_line [] [''#x''] sample_state
      = (Inl OSError, sample_state\<lparr>disk := (disk sample_state)(''/vault/first.md'' := Inr ''Tags'')\<rparr>)"
    by (simp only: tk)
  from t3 h3 h4 p have "scan_directory ?e ''/vault'' sample_state =
     (\<lparr>processed = [], printed = [], raised = Some OSError\<rparr>, sample_state)" by blast
  with h1 p w v show ?thesis by blast
qed

end
